theory Spec2Isabelle
  imports Main "HOL-Library.Char_ord" "HOL-Library.List_Lexorder"
begin

section \<open>The Grant Store and the recursive role-hierarchy query\<close>

text \<open>
  The resolver of \<^verbatim>\<open>user_role_hierarchy3.py\<close> is the SQL text \<^verbatim>\<open>cte_query\<close>, run
  against two views of the store. A row of \<^verbatim>\<open>grants_to_users\<close> and a row of
  \<^verbatim>\<open>grants_to_roles\<close> keep the columns the query reads; \<^verbatim>\<open>DELETED_ON\<close> is a
  nullable timestamp, \<open>None\<close> being SQL's NULL. Strings are byte strings, and the
  order on them (\<^verbatim>\<open>ORDER BY path_string\<close>) is the lexicographic order of their bytes.
\<close>

record gtu_row =
  gtu_ROLE :: string
  gtu_GRANTEE_NAME :: string
  gtu_DELETED_ON :: "nat option"

record gtr_row =
  gtr_NAME :: string
  gtr_GRANTEE_NAME :: string
  gtr_PRIVILEGE :: string
  gtr_GRANTED_ON :: string
  gtr_DELETED_ON :: "nat option"

text \<open>A row of the common table expression \<^verbatim>\<open>user_role_hierarchy\<close>.\<close>

record urh_row =
  level :: nat
  role_name :: string
  granted_via_type :: string
  granted_via_name :: string
  path_string :: string

definition arrow :: string where
  "arrow = '' -> ''"

text \<open>Anchor member: the roles granted directly to the user, not deleted.\<close>

definition anchor_member :: "gtu_row list \<Rightarrow> string \<Rightarrow> urh_row list" where
  "anchor_member gtus p =
     map (\<lambda>gtu. \<lparr>level = 0, role_name = gtu_ROLE gtu, granted_via_type = ''USER'',
                  granted_via_name = gtu_GRANTEE_NAME gtu, path_string = gtu_ROLE gtu\<rparr>)
       (filter (\<lambda>gtu. gtu_GRANTEE_NAME gtu = p \<and> gtu_DELETED_ON gtu = None) gtus)"

text \<open>
  Recursive member: the join of \<^verbatim>\<open>grants_to_roles\<close> with the rows of the previous
  iteration, under the \<^verbatim>\<open>WHERE\<close> clause of the source.
\<close>

definition joins :: "gtr_row \<Rightarrow> urh_row \<Rightarrow> bool" where
  "joins gtr urh \<longleftrightarrow>
     gtr_GRANTEE_NAME gtr = role_name urh \<and> gtr_PRIVILEGE gtr = ''USAGE'' \<and>
     gtr_GRANTED_ON gtr = ''ROLE'' \<and> gtr_DELETED_ON gtr = None \<and> level urh < 20"

definition child_row :: "gtr_row \<Rightarrow> urh_row \<Rightarrow> urh_row" where
  "child_row gtr urh =
     \<lparr>level = level urh + 1, role_name = gtr_NAME gtr, granted_via_type = ''ROLE'',
      granted_via_name = gtr_GRANTEE_NAME gtr,
      path_string = path_string urh @ arrow @ gtr_NAME gtr\<rparr>"

definition recursive_member :: "gtr_row list \<Rightarrow> urh_row list \<Rightarrow> urh_row list" where
  "recursive_member gtrs working =
     concat (map (\<lambda>gtr. map (child_row gtr) (filter (joins gtr) working)) gtrs)"

text \<open>
  The evaluation of \<^verbatim>\<open>WITH RECURSIVE\<close>: the rows of one iteration are kept, and the
  recursive member runs on them alone, until an iteration gives no row.
\<close>

definition headroom :: "urh_row list \<Rightarrow> nat" where
  "headroom working =
     (if working = [] then 0 else Suc (Max ((\<lambda>u. 20 - level u) ` set working)))"

lemma headroom_recursive_member:
  assumes "working \<noteq> []"
  shows "headroom (recursive_member gtrs working) < headroom working"
proof (cases "recursive_member gtrs working = []")
  case True
  with assms show ?thesis by (simp add: headroom_def)
next
  case False
  let ?W = "(\<lambda>u. 20 - level u) ` set working"
  let ?N = "(\<lambda>u. 20 - level u) ` set (recursive_member gtrs working)"
  have finW: "finite ?W" and neW: "?W \<noteq> {}" using assms by simp_all
  have "\<forall>b \<in> ?N. b < Max ?W"
  proof
    fix b assume "b \<in> ?N"
    then obtain gtr u where u: "u \<in> set working" "joins gtr u" and b: "b = 20 - level (child_row gtr u)"
      by (auto simp: recursive_member_def)
    from u have "level u < 20" by (simp add: joins_def)
    then have "b < 20 - level u" using b by (simp add: child_row_def)
    moreover have "20 - level u \<le> Max ?W" using u(1) finW by (intro Max_ge) auto
    ultimately show "b < Max ?W" by simp
  qed
  moreover have "finite ?N" "?N \<noteq> {}" using False by simp_all
  ultimately have "Max ?N < Max ?W" by simp
  with assms False show ?thesis by (simp add: headroom_def)
qed

function cte_iterate :: "gtr_row list \<Rightarrow> urh_row list \<Rightarrow> urh_row list" where
  "cte_iterate gtrs working =
     (if working = [] then [] else working @ cte_iterate gtrs (recursive_member gtrs working))"
  by pat_completeness auto
termination
  by (relation "measure (\<lambda>(gtrs, working). headroom working)")
     (simp_all add: headroom_recursive_member)

declare cte_iterate.simps [simp del]

definition user_role_hierarchy :: "gtu_row list \<Rightarrow> gtr_row list \<Rightarrow> string \<Rightarrow> urh_row list" where
  "user_role_hierarchy gtus gtrs p = cte_iterate gtrs (anchor_member gtus p)"

text \<open>The final \<^verbatim>\<open>SELECT ... ORDER BY path_string\<close>.\<close>

definition cte_query :: "gtu_row list \<Rightarrow> gtr_row list \<Rightarrow> string \<Rightarrow> urh_row list" where
  "cte_query gtus gtrs p = sort_key path_string (user_role_hierarchy gtus gtrs p)"


section \<open>Python strings and JSON values\<close>

text \<open>
  The parameter and the store's identifiers are taken to be ASCII: \<^verbatim>\<open>str.strip\<close>,
  \<^verbatim>\<open>str.upper\<close> and \<^verbatim>\<open>str.lower\<close> are modelled on the ASCII range, where Python's
  white space is the characters 9 to 13, 28 to 31 and the space.
\<close>

definition is_space :: "char \<Rightarrow> bool" where
  "is_space c \<longleftrightarrow>
     (let n = (of_char c :: nat) in (9 \<le> n \<and> n \<le> 13) \<or> (28 \<le> n \<and> n \<le> 32))"

definition py_strip :: "string \<Rightarrow> string" where
  "py_strip s = rev (dropWhile is_space (rev (dropWhile is_space s)))"

definition upper_char :: "char \<Rightarrow> char" where
  "upper_char c =
     (if CHR ''a'' \<le> c \<and> c \<le> CHR ''z'' then char_of (of_char c - (32::nat)) else c)"

definition lower_char :: "char \<Rightarrow> char" where
  "lower_char c =
     (if CHR ''A'' \<le> c \<and> c \<le> CHR ''Z'' then char_of (of_char c + (32::nat)) else c)"

definition py_upper :: "string \<Rightarrow> string" where
  "py_upper s = map upper_char s"

definition py_lower :: "string \<Rightarrow> string" where
  "py_lower s = map lower_char s"

text \<open>Python's \<^verbatim>\<open>sub in s\<close> on strings.\<close>

fun py_in :: "string \<Rightarrow> string \<Rightarrow> bool" where
  "py_in sub [] = (sub = [])"
| "py_in sub (c # cs) = (take (length sub) (c # cs) = sub \<or> py_in sub cs)"

definition quote :: string where
  "quote = [CHR 0x27]"

datatype json =
  JNull
  | JBool bool
  | JNum int
  | JStr string
  | JList "json list"
  | JDict "(string \<times> json) list"

section \<open>The Query Service: \<^verbatim>\<open>get_role_hierarchy_route\<close>\<close>

text \<open>
  The exceptions the handler tells apart, each with its \<^verbatim>\<open>str(e)\<close>:
  \<^verbatim>\<open>snowflake.connector.errors.ProgrammingError\<close>, \<^verbatim>\<open>ValueError\<close>, and any other
  \<^verbatim>\<open>Exception\<close>.
\<close>

datatype exc = ProgrammingError string | ValueError string | OtherException string

text \<open>
  The Grant Store as the handler meets it: the two views, and for each call of the
  driver the exception it raises, if it raises one.
\<close>

record grant_store =
  grants_to_users :: "gtu_row list"
  grants_to_roles :: "gtr_row list"
  connect_fault :: "exc option"
  cursor_fault :: "exc option"
  execute_fault :: "exc option"
  fetchall_fault :: "exc option"
  cursor_close_fault :: "exc option"
  connection_close_fault :: "exc option"

text \<open>The calls the handler makes on the driver, in order, each with how it ended.\<close>

datatype store_call = Connect | Cursor | Execute string | Fetchall | CursorClose | ConnectionClose

datatype outcome = Returned | Raised exc

type_synonym trace = "(store_call \<times> outcome) list"

type_synonym response = "nat \<times> json"

text \<open>How a block of statements ends: by an exception, by \<^verbatim>\<open>return\<close>, or at its end.\<close>

datatype 'a control = Raise exc | Return response | Next 'a

definition jsonify :: "json \<Rightarrow> response" where
  "jsonify body = (200, body)"

definition no_hierarchy_message :: "string \<Rightarrow> string" where
  "no_hierarchy_message user_name_param =
     ''No role hierarchy found for user '' @ quote @ user_name_param @ quote @
     ''. User may not exist, have no roles, or grants are not visible.''"

text \<open>Lines 114 to 124: the inner \<^verbatim>\<open>try\<close> block.\<close>

definition inner_try :: "grant_store \<Rightarrow> string \<Rightarrow> string \<Rightarrow> string list control \<times> trace" where
  "inner_try st user_name_param user_name_upper =
     (case execute_fault st of
        Some e \<Rightarrow> (Raise e, [(Execute user_name_upper, Raised e)])
      | None \<Rightarrow>
         (case fetchall_fault st of
            Some e \<Rightarrow> (Raise e, [(Execute user_name_upper, Returned), (Fetchall, Raised e)])
          | None \<Rightarrow>
             (let results = cte_query (grants_to_users st) (grants_to_roles st) user_name_upper
              in (if results = []
                  then Return (jsonify (JList [JStr (no_hierarchy_message user_name_param)]))
                  else Next (map path_string results),
                  [(Execute user_name_upper, Returned), (Fetchall, Returned)]))))"

text \<open>Lines 125 to 127: the \<^verbatim>\<open>finally\<close> block; an exception it raises replaces the rest.\<close>

definition finally_block :: "grant_store \<Rightarrow> exc option \<times> trace" where
  "finally_block st =
     (case cursor_close_fault st of
        Some e \<Rightarrow> (Some e, [(CursorClose, Raised e)])
      | None \<Rightarrow>
         (case connection_close_fault st of
            Some e \<Rightarrow> (Some e, [(CursorClose, Returned), (ConnectionClose, Raised e)])
          | None \<Rightarrow> (None, [(CursorClose, Returned), (ConnectionClose, Returned)])))"

text \<open>Lines 99 to 129: the outer \<^verbatim>\<open>try\<close> block.\<close>

definition try_block :: "grant_store \<Rightarrow> string \<Rightarrow> string \<Rightarrow> (exc + response) \<times> trace" where
  "try_block st user_name_param user_name_upper =
     (case connect_fault st of
        Some e \<Rightarrow> (Inl e, [(Connect, Raised e)])
      | None \<Rightarrow>
         (case cursor_fault st of
            Some e \<Rightarrow> (Inl e, [(Connect, Returned), (Cursor, Raised e)])
          | None \<Rightarrow>
             (let (c, t1) = inner_try st user_name_param user_name_upper;
                  (f, t2) = finally_block st
              in ((case f of
                     Some e \<Rightarrow> Inl e
                   | None \<Rightarrow>
                      (case c of
                         Raise e \<Rightarrow> Inl e
                       | Return r \<Rightarrow> Inr r
                       | Next grant_chains \<Rightarrow> Inr (jsonify (JList (map JStr grant_chains))))),
                  [(Connect, Returned), (Cursor, Returned)] @ t1 @ t2))))"

text \<open>Lines 131 to 144: the \<^verbatim>\<open>except\<close> clauses.\<close>

definition error_body :: "string \<Rightarrow> string \<Rightarrow> json" where
  "error_body msg details = JDict [(''error'', JStr msg), (''details'', JStr details)]"

definition except_clauses :: "string \<Rightarrow> exc \<Rightarrow> response" where
  "except_clauses user_name_param e =
     (case e of
        ProgrammingError error_detail \<Rightarrow>
          (if py_in ''object does not exist or not authorized'' (py_lower error_detail)
           then (404, error_body
                   (''User '' @ quote @ user_name_param @ quote @
                    '' may not exist, or the connecting role lacks permissions to view its grants or the ACCOUNT_USAGE schema.'')
                   error_detail)
           else if py_in ''connection_name'' (py_lower error_detail) \<and>
                   py_in ''not found'' (py_lower error_detail)
           then (500, error_body
                   (''Snowflake connection name '' @ quote @ ''bsabwew-sj64889'' @ quote @
                    '' not found. Please configure it in ~/.snowflake/connections.toml'')
                   error_detail)
           else (500, error_body ''Error querying Snowflake for role hierarchy (CTE).'' error_detail))
      | ValueError d \<Rightarrow>
          (500, error_body ''Server configuration error (e.g., Snowflake connection).'' d)
      | OtherException d \<Rightarrow>
          (500, error_body
             ''An unexpected error occurred on the server while fetching role hierarchy (CTE).'' d))"

text \<open>
  The handler. Its argument is \<^verbatim>\<open>request.args.get('user_name')\<close>, \<open>None\<close> when the
  parameter is missing; it gives the response and the calls made on the driver.
\<close>

definition get_role_hierarchy_route :: "grant_store \<Rightarrow> string option \<Rightarrow> response \<times> trace" where
  "get_role_hierarchy_route st user_name_arg =
     (case user_name_arg of
        None \<Rightarrow> ((400, JDict [(''error'', JStr ''Missing 'user_name' parameter'')]), [])
      | Some user_name_param \<Rightarrow>
         (if user_name_param = []
          then ((400, JDict [(''error'', JStr ''Missing 'user_name' parameter'')]), [])
          else (let user_name_upper = py_upper (py_strip user_name_param)
                in (case try_block st user_name_param user_name_upper of
                      (Inl e, t) \<Rightarrow> (except_clauses user_name_param e, t)
                    | (Inr r, t) \<Rightarrow> (r, t)))))"


section \<open>The Fetch Client: \<^verbatim>\<open>FetchWorker\<close>\<close>

text \<open>
  What \<^verbatim>\<open>response.json()\<close> raises on a body that is not JSON: from requests 2.27 on,
  \<^verbatim>\<open>requests.exceptions.JSONDecodeError\<close>, which is a \<^verbatim>\<open>RequestException\<close> and a
  \<^verbatim>\<open>ValueError\<close>; before, the decoder's own error, a \<^verbatim>\<open>ValueError\<close> only. Both carry
  their \<^verbatim>\<open>str(e)\<close>.
\<close>

datatype json_failure = InvalidJSON string | InvalidJSON_legacy string

record http_response =
  status_code :: nat
  reason :: string
  json_result :: "json_failure + json"

text \<open>What \<^verbatim>\<open>requests.get\<close> does: a timeout, another \<^verbatim>\<open>RequestException\<close>, or a response.\<close>

datatype get_outcome = TimedOut string | Failed string | Responded http_response

datatype client_exc =
  Timeout string
  | HTTPError http_response
  | RequestException string
  | JSONError json_failure
  | TypeError
  | AttributeError

fun is_Timeout :: "client_exc \<Rightarrow> bool" where
  "is_Timeout (Timeout _) = True"
| "is_Timeout _ = False"

fun is_RequestException :: "client_exc \<Rightarrow> bool" where
  "is_RequestException (Timeout _) = True"
| "is_RequestException (HTTPError _) = True"
| "is_RequestException (RequestException _) = True"
| "is_RequestException (JSONError (InvalidJSON _)) = True"
| "is_RequestException _ = False"

fun is_ValueError :: "client_exc \<Rightarrow> bool" where
  "is_ValueError (JSONError _) = True"
| "is_ValueError _ = False"

fun exc_text :: "client_exc \<Rightarrow> string" where
  "exc_text (Timeout m) = m"
| "exc_text (RequestException m) = m"
| "exc_text (JSONError (InvalidJSON m)) = m"
| "exc_text (JSONError (InvalidJSON_legacy m)) = m"
| "exc_text _ = []"

text \<open>The two signals of the worker.\<close>

datatype signal = data_ready "json list" | error_occurred string

text \<open>
  One run of the worker: the value of \<^verbatim>\<open>_is_running\<close> at each of its reads (line 168;
  then line 174 or the handler of an exception of the call; then the handler of an
  exception of line 175), and what the network call does. Another thread may call
  \<^verbatim>\<open>stop\<close> between two reads.
\<close>

record worker_run =
  running_before_call :: bool
  running_after_call :: bool
  running_in_handler :: bool
  get_result :: get_outcome

record FetchWorker =
  full_api_url :: string
  params :: "(string \<times> string) list"
  is_running :: bool

text \<open>Lines 161 to 165 and 200 to 201: \<^verbatim>\<open>__init__\<close> and \<^verbatim>\<open>stop\<close>.\<close>

definition init_worker :: "string \<Rightarrow> (string \<times> string) list option \<Rightarrow> FetchWorker" where
  "init_worker url ps =
     \<lparr>full_api_url = url, params = (case ps of None \<Rightarrow> [] | Some d \<Rightarrow> d), is_running = True\<rparr>"

definition stop :: "FetchWorker \<Rightarrow> FetchWorker" where
  "stop w = w\<lparr>is_running := False\<rparr>"

text \<open>
  When the owner calls \<^verbatim>\<open>stop\<close>: never, or before the read number \<open>k\<close> of the flag
  (counted from 0) and after the reads before it. Nothing sets the flag again, so every
  later read sees it cleared.
\<close>

datatype stop_call = NeverStopped | StoppedBeforeRead nat

definition flag_at :: "FetchWorker \<Rightarrow> stop_call \<Rightarrow> nat \<Rightarrow> bool" where
  "flag_at w sc k =
     is_running (case sc of
                   NeverStopped \<Rightarrow> w
                 | StoppedBeforeRead j \<Rightarrow> (if j \<le> k then stop w else w))"

definition observed :: "FetchWorker \<Rightarrow> stop_call \<Rightarrow> get_outcome \<Rightarrow> worker_run" where
  "observed w sc g =
     \<lparr>running_before_call = flag_at w sc 0, running_after_call = flag_at w sc 1,
      running_in_handler = flag_at w sc 2, get_result = g\<rparr>"

text \<open>
  Python's \<^verbatim>\<open>key in value\<close> and \<^verbatim>\<open>value.get(key, default)\<close> on a decoded JSON value. An
  object is decoded to a dictionary, here its items with distinct keys.
\<close>

definition dict_has :: "(string \<times> json) list \<Rightarrow> string \<Rightarrow> bool" where
  "dict_has kvs k \<longleftrightarrow> k \<in> set (map fst kvs)"

definition dict_get :: "(string \<times> json) list \<Rightarrow> string \<Rightarrow> json \<Rightarrow> json" where
  "dict_get kvs k dflt = (case map_of kvs k of None \<Rightarrow> dflt | Some v \<Rightarrow> v)"

fun py_contains :: "json \<Rightarrow> string \<Rightarrow> client_exc + bool" where
  "py_contains (JDict kvs) k = Inr (dict_has kvs k)"
| "py_contains (JList xs) k = Inr (JStr k \<in> set xs)"
| "py_contains (JStr s) k = Inr (py_in k s)"
| "py_contains _ k = Inl TypeError"

fun py_get :: "json \<Rightarrow> string \<Rightarrow> client_exc + json" where
  "py_get (JDict kvs) k = Inr (dict_get kvs k JNull)"
| "py_get _ k = Inl AttributeError"

definition unexpected_format_message :: string where
  "unexpected_format_message = ''Received unexpected data format from the server.''"

text \<open>
  Lines 176 to 182. The parameter \<open>str_of\<close> is Python's \<^verbatim>\<open>str\<close> on a decoded value, as the
  f-strings apply it.
\<close>

definition report_data :: "(json \<Rightarrow> string) \<Rightarrow> json \<Rightarrow> signal list" where
  "report_data str_of data =
     (case data of
        JList xs \<Rightarrow> [data_ready xs]
      | JDict kvs \<Rightarrow>
          (if dict_has kvs ''error''
           then [error_occurred
                  (''Backend error: '' @ str_of (dict_get kvs ''error'' JNull) @
                   '' (Details: '' @ str_of (dict_get kvs ''details'' (JStr ''N/A'')) @ '')'')]
           else [error_occurred unexpected_format_message])
      | _ \<Rightarrow> [error_occurred unexpected_format_message])"

text \<open>
  Lines 190 and 191: \<^verbatim>\<open>if key in err_details: error_message += ...\<close>. An exception of
  the test or of \<^verbatim>\<open>.get\<close> is no \<^verbatim>\<open>ValueError\<close>: it leaves the handler.
\<close>

definition add_detail ::
  "(json \<Rightarrow> string) \<Rightarrow> json \<Rightarrow> string \<Rightarrow> string \<Rightarrow> string \<Rightarrow> string \<Rightarrow> client_exc + string" where
  "add_detail str_of err_details k opening closing error_message =
     (case py_contains err_details k of
        Inl e \<Rightarrow> Inl e
      | Inr False \<Rightarrow> Inr error_message
      | Inr True \<Rightarrow>
          (case py_get err_details k of
             Inl e \<Rightarrow> Inl e
           | Inr v \<Rightarrow> Inr (error_message @ opening @ str_of v @ closing)))"

text \<open>Lines 187 to 194: the report of an HTTP error, once the flag has been read.\<close>

definition http_error_report ::
  "(json \<Rightarrow> string) \<Rightarrow> http_response \<Rightarrow> signal list \<times> client_exc option" where
  "http_error_report str_of response =
     (let error_message =
            ''HTTP error: '' @ str_of (JNum (int (status_code response))) @ '' '' @ reason response
      in (case json_result response of
            Inl _ \<Rightarrow> ([error_occurred error_message], None)
          | Inr err_details \<Rightarrow>
              (case add_detail str_of err_details ''error'' '' - '' [] error_message of
                 Inl e \<Rightarrow> ([], Some e)
               | Inr m1 \<Rightarrow>
                   (case add_detail str_of err_details ''details'' '' (Details: '' '')'' m1 of
                      Inl e \<Rightarrow> ([], Some e)
                    | Inr m2 \<Rightarrow> ([error_occurred m2], None)))))"

text \<open>
  Lines 183 to 198: the \<^verbatim>\<open>except\<close> clauses, in the order of the source; \<open>running\<close> is the
  value of the flag as the clause reads it. An exception no clause takes leaves \<^verbatim>\<open>run\<close>.
\<close>

definition except_handlers ::
  "(json \<Rightarrow> string) \<Rightarrow> bool \<Rightarrow> client_exc \<Rightarrow> signal list \<times> client_exc option" where
  "except_handlers str_of running e =
     (if is_Timeout e
      then (if running
            then [error_occurred
                   ''The request timed out. Please check the backend server or query complexity.'']
            else [], None)
      else (case e of
              HTTPError response \<Rightarrow>
                (if running then http_error_report str_of response else ([], None))
            | _ \<Rightarrow>
                (if is_RequestException e
                 then (if running
                       then [error_occurred
                              (''Error fetching data: '' @ exc_text e @
                               ''. Is the backend server running correctly?'')]
                       else [], None)
                 else if is_ValueError e
                 then (if running
                       then [error_occurred (''Error decoding JSON response: '' @ exc_text e)]
                       else [], None)
                 else ([], Some e))))"

text \<open>\<^verbatim>\<open>response.raise_for_status()\<close> raises \<^verbatim>\<open>HTTPError\<close> on a status from 400 to 599.\<close>

definition raises_for_status :: "http_response \<Rightarrow> bool" where
  "raises_for_status response \<longleftrightarrow> 400 \<le> status_code response \<and> status_code response < 600"

text \<open>
  Lines 167 to 198: \<^verbatim>\<open>FetchWorker.run\<close>. It gives the signals emitted, in order, and the
  exception that leaves it, if one does.
\<close>

definition run :: "(json \<Rightarrow> string) \<Rightarrow> worker_run \<Rightarrow> signal list \<times> client_exc option" where
  "run str_of env =
     (if \<not> running_before_call env then ([], None)
      else (case get_result env of
              TimedOut m \<Rightarrow> except_handlers str_of (running_after_call env) (Timeout m)
            | Failed m \<Rightarrow> except_handlers str_of (running_after_call env) (RequestException m)
            | Responded response \<Rightarrow>
                (if raises_for_status response
                 then except_handlers str_of (running_after_call env) (HTTPError response)
                 else if \<not> running_after_call env then ([], None)
                 else (case json_result response of
                         Inl f \<Rightarrow> except_handlers str_of (running_in_handler env) (JSONError f)
                       | Inr data \<Rightarrow> (report_data str_of data, None)))))"


section \<open>Path strings as chains of role names\<close>

text \<open>
  A path string is the join of role names by the separator, as Python's
  \<^verbatim>\<open>' -> '.join(names)\<close> would build it. The number of segments of a string is one more
  than the number of separators in it, counted from the left.
\<close>

fun join_arrow :: "string list \<Rightarrow> string" where
  "join_arrow [] = []"
| "join_arrow [x] = x"
| "join_arrow (x # y # ys) = x @ arrow @ join_arrow (y # ys)"

fun count_arrows :: "string \<Rightarrow> nat" where
  "count_arrows [] = 0"
| "count_arrows (c # cs) =
     (if take 4 (c # cs) = arrow then Suc (count_arrows (drop 3 cs)) else count_arrows cs)"

definition segments :: "string \<Rightarrow> nat" where
  "segments s = Suc (count_arrows s)"

definition role_names :: "gtu_row list \<Rightarrow> gtr_row list \<Rightarrow> string set" where
  "role_names gtus gtrs = gtu_ROLE ` set gtus \<union> gtr_NAME ` set gtrs"

text \<open>
  The names \<open>ns\<close> are the chain of the node \<open>u\<close>: one name per level, from the anchor
  to the node's own role, all of them role names of the store.
\<close>

definition chain :: "gtu_row list \<Rightarrow> gtr_row list \<Rightarrow> urh_row \<Rightarrow> string list \<Rightarrow> bool" where
  "chain gtus gtrs u ns \<longleftrightarrow>
     length ns = Suc (level u) \<and> path_string u = join_arrow ns \<and> last ns = role_name u \<and>
     set ns \<subseteq> role_names gtus gtrs"

section \<open>Stores of the scenarios\<close>

definition no_faults :: "gtu_row list \<Rightarrow> gtr_row list \<Rightarrow> grant_store" where
  "no_faults gtus gtrs =
     \<lparr>grants_to_users = gtus, grants_to_roles = gtrs, connect_fault = None,
      cursor_fault = None, execute_fault = None, fetchall_fault = None,
      cursor_close_fault = None, connection_close_fault = None\<rparr>"

text \<open>Scenario A: ALICE holds ANALYST, and ANALYST holds READER.\<close>

definition scenario_A :: grant_store where
  "scenario_A =
     no_faults
       [\<lparr>gtu_ROLE = ''ANALYST'', gtu_GRANTEE_NAME = ''ALICE'', gtu_DELETED_ON = None\<rparr>]
       [\<lparr>gtr_NAME = ''READER'', gtr_GRANTEE_NAME = ''ANALYST'', gtr_PRIVILEGE = ''USAGE'',
         gtr_GRANTED_ON = ''ROLE'', gtr_DELETED_ON = None\<rparr>]"

text \<open>A role granted to itself: U holds A, and A holds A.\<close>

definition self_grant :: grant_store where
  "self_grant =
     no_faults
       [\<lparr>gtu_ROLE = ''A'', gtu_GRANTEE_NAME = ''U'', gtu_DELETED_ON = None\<rparr>]
       [\<lparr>gtr_NAME = ''A'', gtr_GRANTEE_NAME = ''A'', gtr_PRIVILEGE = ''USAGE'',
         gtr_GRANTED_ON = ''ROLE'', gtr_DELETED_ON = None\<rparr>]"

definition resolve :: "grant_store \<Rightarrow> string \<Rightarrow> string list" where
  "resolve st p = map path_string (cte_query (grants_to_users st) (grants_to_roles st) p)"





text \<open>Scenario A with a driver that fails: at \<^verbatim>\<open>connection.cursor()\<close>, or at \<^verbatim>\<open>cur.execute\<close>.\<close>

definition cursor_fails :: grant_store where
  "cursor_fails = scenario_A\<lparr>cursor_fault := Some (OtherException ''Connection is closed'')\<rparr>"


section \<open>Runs of the worker in the examples\<close>

text \<open>
  Python's \<^verbatim>\<open>str\<close> on a decoded string is the string; the examples below apply
  \<open>str_of_text\<close> to strings only.
\<close>

definition str_of_text :: "json \<Rightarrow> string" where
  "str_of_text v = (case v of JStr s \<Rightarrow> s | _ \<Rightarrow> [])"

definition role_hierarchy_worker :: FetchWorker where
  "role_hierarchy_worker =
     init_worker ''http://127.0.0.1:5001/api/role-hierarchy'' (Some [(''user_name'', ''alice'')])"

text \<open>A response of status 500 whose body is the JSON number 5, and no call of \<^verbatim>\<open>stop\<close>.\<close>

definition http_500_scalar :: worker_run where
  "http_500_scalar =
     observed role_hierarchy_worker NeverStopped
       (Responded \<lparr>status_code = 500, reason = ''INTERNAL SERVER ERROR'',
                    json_result = Inr (JNum 5)\<rparr>)"

definition ok_response :: "json \<Rightarrow> worker_run" where
  "ok_response data =
     observed role_hierarchy_worker NeverStopped
       (Responded \<lparr>status_code = 200, reason = ''OK'', json_result = Inr data\<rparr>)"

text \<open>
  The body of an error response is one the handler of \<^verbatim>\<open>HTTPError\<close> reports: not JSON,
  or a JSON object.
\<close>

fun error_body_reported :: "get_outcome \<Rightarrow> bool" where
  "error_body_reported (Responded response) =
     (raises_for_status response \<longrightarrow>
        (case json_result response of Inl _ \<Rightarrow> True | Inr (JDict _) \<Rightarrow> True | Inr _ \<Rightarrow> False))"
| "error_body_reported _ = True"

section \<open>The resolver: levels, chains and parents\<close>

lemma join_arrow_snoc: "ns \<noteq> [] \<Longrightarrow> join_arrow (ns @ [s]) = join_arrow ns @ arrow @ s"
  by (induction ns rule: join_arrow.induct) simp_all

lemma set_recursive_member:
  "set (recursive_member gtrs w) =
     {child_row gtr u | gtr u. gtr \<in> set gtrs \<and> u \<in> set w \<and> joins gtr u}"
  by (auto simp: recursive_member_def)

lemma cte_iterate_unfold:
  "w \<noteq> [] \<Longrightarrow> cte_iterate gtrs w = w @ cte_iterate gtrs (recursive_member gtrs w)"
  by (subst cte_iterate.simps) simp

lemma cte_iterate_Nil: "cte_iterate gtrs [] = []"
  by (subst cte_iterate.simps) simp

lemma cte_iterate_invariant:
  assumes "r \<in> set (cte_iterate gtrs w)"
    and "\<And>u. u \<in> set w \<Longrightarrow> P u"
    and "\<And>gtr u. P u \<Longrightarrow> gtr \<in> set gtrs \<Longrightarrow> joins gtr u \<Longrightarrow> P (child_row gtr u)"
  shows "P r"
  using assms
proof (induction gtrs w rule: cte_iterate.induct)
  case (1 gtrs working)
  show ?case
  proof (cases "working = []")
    case True
    with "1.prems"(1) show ?thesis by (simp add: cte_iterate_Nil)
  next
    case False
    then have "r \<in> set working \<or> r \<in> set (cte_iterate gtrs (recursive_member gtrs working))"
      using "1.prems"(1) by (simp add: cte_iterate_unfold)
    then show ?thesis
    proof
      assume "r \<in> set working"
      then show ?thesis by (rule "1.prems"(2))
    next
      assume r: "r \<in> set (cte_iterate gtrs (recursive_member gtrs working))"
      show ?thesis
      proof (rule "1.IH" [OF False r])
        fix u assume "u \<in> set (recursive_member gtrs working)"
        then show "P u"
          using "1.prems"(2,3) by (auto simp: set_recursive_member)
      qed (rule "1.prems"(3))
    qed
  qed
qed

lemma cte_iterate_parent:
  assumes "r \<in> set (cte_iterate gtrs w)"
  shows "r \<in> set w \<or>
     (\<exists>u gtr. u \<in> set (cte_iterate gtrs w) \<and> gtr \<in> set gtrs \<and> joins gtr u \<and> r = child_row gtr u)"
  using assms
proof (induction gtrs w rule: cte_iterate.induct)
  case (1 gtrs working)
  show ?case
  proof (cases "working = []")
    case True
    with "1.prems" show ?thesis by (simp add: cte_iterate_Nil)
  next
    case False
    then have unf: "cte_iterate gtrs working = working @ cte_iterate gtrs (recursive_member gtrs working)"
      by (rule cte_iterate_unfold)
    show ?thesis
    proof (cases "r \<in> set working")
      case True
      then show ?thesis by simp
    next
      case notin: False
      with "1.prems" unf have r: "r \<in> set (cte_iterate gtrs (recursive_member gtrs working))"
        by simp
      from "1.IH" [OF False r]
      have "r \<in> set (recursive_member gtrs working) \<or>
        (\<exists>u gtr. u \<in> set (cte_iterate gtrs (recursive_member gtrs working)) \<and> gtr \<in> set gtrs \<and>
           joins gtr u \<and> r = child_row gtr u)" .
      then have "\<exists>u gtr. u \<in> set (working @ cte_iterate gtrs (recursive_member gtrs working)) \<and>
           gtr \<in> set gtrs \<and> joins gtr u \<and> r = child_row gtr u"
        by (auto simp: set_recursive_member)
      then show ?thesis unfolding unf by blast
    qed
  qed
qed

lemma anchor_chain:
  "u \<in> set (anchor_member gtus p) \<Longrightarrow> chain gtus gtrs u [role_name u]"
  by (auto simp: anchor_member_def chain_def role_names_def)

lemma child_chain:
  assumes "chain gtus gtrs u ns" "gtr \<in> set gtrs"
  shows "chain gtus gtrs (child_row gtr u) (ns @ [gtr_NAME gtr])"
proof -
  from assms(1) have "ns \<noteq> []" by (auto simp: chain_def)
  with assms show ?thesis
    by (auto simp: chain_def child_row_def join_arrow_snoc role_names_def)
qed

lemma hierarchy_chain:
  assumes "r \<in> set (user_role_hierarchy gtus gtrs p)"
  shows "\<exists>ns. chain gtus gtrs r ns"
  using assms unfolding user_role_hierarchy_def
proof (rule cte_iterate_invariant)
  fix u assume "u \<in> set (anchor_member gtus p)"
  then show "\<exists>ns. chain gtus gtrs u ns" using anchor_chain by blast
next
  fix gtr u assume "\<exists>ns. chain gtus gtrs u ns" "gtr \<in> set gtrs"
  then show "\<exists>ns. chain gtus gtrs (child_row gtr u) ns" using child_chain by blast
qed

lemma hierarchy_level:
  assumes "r \<in> set (user_role_hierarchy gtus gtrs p)"
  shows "level r \<le> 20"
  using assms unfolding user_role_hierarchy_def
proof (rule cte_iterate_invariant)
  fix u assume "u \<in> set (anchor_member gtus p)"
  then show "level u \<le> 20" by (auto simp: anchor_member_def)
next
  fix gtr u assume "joins gtr u"
  then show "level (child_row gtr u) \<le> 20" by (simp add: joins_def child_row_def)
qed

lemma set_cte_query: "set (cte_query gtus gtrs p) = set (user_role_hierarchy gtus gtrs p)"
  by (simp add: cte_query_def)

lemma hierarchy_parent:
  assumes "r \<in> set (user_role_hierarchy gtus gtrs p)" "0 < level r"
  shows "\<exists>u gtr. u \<in> set (user_role_hierarchy gtus gtrs p) \<and> gtr \<in> set gtrs \<and> joins gtr u \<and> r = child_row gtr u"
proof -
  from assms(2) have "r \<notin> set (anchor_member gtus p)" by (auto simp: anchor_member_def)
  with cte_iterate_parent [of r gtrs "anchor_member gtus p"] assms(1)
  show ?thesis by (simp add: user_role_hierarchy_def)
qed


lemma sorted_resolve: "sorted (resolve st p)"
  by (simp add: resolve_def cte_query_def)

lemma scenario_A_rows:
  "cte_query (grants_to_users scenario_A) (grants_to_roles scenario_A) ''ALICE'' =
     [\<lparr>level = 0, role_name = ''ANALYST'', granted_via_type = ''USER'',
       granted_via_name = ''ALICE'', path_string = ''ANALYST''\<rparr>,
      \<lparr>level = 1, role_name = ''READER'', granted_via_type = ''ROLE'',
       granted_via_name = ''ANALYST'', path_string = ''ANALYST -> READER''\<rparr>]"
  by (simp add: scenario_A_def no_faults_def cte_query_def user_role_hierarchy_def
      anchor_member_def recursive_member_def joins_def child_row_def arrow_def
      cte_iterate.simps)

text \<open>
  C2, as amended. Every row of the result has a level of at most 20 and a path string of
  level + 1 role names, so of at most 21; and a row above level 0 is the expansion of a
  row of the result whose level is below 20: a node is expanded only below level 20.
\<close>

theorem depth_bound_21:
  assumes "r \<in> set (cte_query gtus gtrs p)"
  shows "level r \<le> 20 \<and>
    (\<exists>ns. chain gtus gtrs r ns \<and> length ns \<le> 21) \<and>
    (0 < level r \<longrightarrow>
       (\<exists>u gtr. u \<in> set (cte_query gtus gtrs p) \<and> gtr \<in> set gtrs \<and> level u < 20 \<and>
          joins gtr u \<and> r = child_row gtr u))"
proof (intro conjI impI)
  from assms have r: "r \<in> set (user_role_hierarchy gtus gtrs p)" by (simp add: set_cte_query)
  show lv: "level r \<le> 20" using r by (rule hierarchy_level)
  obtain ns where ns: "chain gtus gtrs r ns" using hierarchy_chain [OF r] by blast
  then have "length ns \<le> 21" using lv by (simp add: chain_def)
  with ns show "\<exists>ns. chain gtus gtrs r ns \<and> length ns \<le> 21" by blast
  assume "0 < level r"
  from hierarchy_parent [OF r this] obtain u gtr where
    u: "u \<in> set (user_role_hierarchy gtus gtrs p)" and g: "gtr \<in> set gtrs"
    and j: "joins gtr u" and e: "r = child_row gtr u"
    by blast
  from j have l: "level u < 20" by (simp add: joins_def)
  from u have u': "u \<in> set (cte_query gtus gtrs p)" by (simp add: set_cte_query)
  from u' g l j e
  show "\<exists>u gtr. u \<in> set (cte_query gtus gtrs p) \<and> gtr \<in> set gtrs \<and> level u < 20 \<and>
          joins gtr u \<and> r = child_row gtr u"
    by blast
qed


theorem depth_bound_21_witness:
  "level \<lparr>level = 1, role_name = ''READER'', granted_via_type = ''ROLE'',
          granted_via_name = ''ANALYST'', path_string = ''ANALYST -> READER''\<rparr> \<le> 20 \<and>
   (\<exists>ns. chain (grants_to_users scenario_A) (grants_to_roles scenario_A)
          \<lparr>level = 1, role_name = ''READER'', granted_via_type = ''ROLE'',
           granted_via_name = ''ANALYST'', path_string = ''ANALYST -> READER''\<rparr> ns \<and>
        length ns \<le> 21) \<and>
   (\<exists>u gtr. u \<in> set (cte_query (grants_to_users scenario_A) (grants_to_roles scenario_A) ''ALICE'') \<and>
      gtr \<in> set (grants_to_roles scenario_A) \<and> level u < 20 \<and> joins gtr u \<and>
      \<lparr>level = 1, role_name = ''READER'', granted_via_type = ''ROLE'',
       granted_via_name = ''ANALYST'', path_string = ''ANALYST -> READER''\<rparr> = child_row gtr u)"
proof -
  let ?r = "\<lparr>level = 1, role_name = ''READER'', granted_via_type = ''ROLE'',
             granted_via_name = ''ANALYST'', path_string = ''ANALYST -> READER''\<rparr>"
  have mem: "?r \<in> set (cte_query (grants_to_users scenario_A) (grants_to_roles scenario_A) ''ALICE'')"
    by (simp add: scenario_A_rows)
  from depth_bound_21 [OF mem] show ?thesis by simp
qed

text \<open>
  C2, as stated, fails: where a role is granted to itself, the row of level 20 is in the
  result, and its path string has 21 segments.
\<close>

theorem depth_bound_20_counterexample:
  "join_arrow (replicate 21 ''A'') \<in> set (resolve self_grant ''U'') \<and>
   segments (join_arrow (replicate 21 ''A'')) = 21"
  by code_simp

text \<open>
  C8, as amended. A row of the result at a level L above 0 has a chain of L + 1 role
  names, and the path string of the first L of them is the path string of a row of the
  result, its parent, one level below: the row's own path string is the parent's, the
  separator and the row's role. The depth bound removes no parent.
\<close>

theorem prefix_invariant:
  assumes "r \<in> set (cte_query gtus gtrs p)" "0 < level r"
  shows "\<exists>ns u. chain gtus gtrs r ns \<and> u \<in> set (cte_query gtus gtrs p) \<and>
     Suc (level u) = level r \<and> path_string u = join_arrow (take (level r) ns) \<and>
     path_string r = path_string u @ arrow @ role_name r \<and>
     join_arrow (take (level r) ns) \<in> set (map path_string (cte_query gtus gtrs p))"
proof -
  from assms have r: "r \<in> set (user_role_hierarchy gtus gtrs p)" by (simp add: set_cte_query)
  from hierarchy_parent [OF r assms(2)] obtain u gtr where
    u: "u \<in> set (user_role_hierarchy gtus gtrs p)" and gtr: "gtr \<in> set gtrs"
    and ru: "r = child_row gtr u"
    by blast
  obtain ms where ms: "chain gtus gtrs u ms" using hierarchy_chain [OF u] by blast
  let ?ns = "ms @ [gtr_NAME gtr]"
  have c: "chain gtus gtrs r ?ns"
    unfolding ru using ms gtr by (rule child_chain)
  have lev: "Suc (level u) = level r" unfolding ru by (simp add: child_row_def)
  have len: "length ms = level r" using ms lev by (simp add: chain_def)
  have tk: "take (level r) ?ns = ms" using len by simp
  have pu: "path_string u = join_arrow (take (level r) ?ns)"
    unfolding tk using ms by (simp add: chain_def)
  have pr: "path_string r = path_string u @ arrow @ role_name r"
    unfolding ru by (simp add: child_row_def)
  have u': "u \<in> set (cte_query gtus gtrs p)" using u by (simp add: set_cte_query)
  then have "path_string u \<in> set (map path_string (cte_query gtus gtrs p))"
    by simp
  then have mem: "join_arrow (take (level r) ?ns) \<in> set (map path_string (cte_query gtus gtrs p))"
    unfolding pu .
  from c u' lev pu pr mem show ?thesis by blast
qed


theorem prefix_invariant_witness:
  "\<exists>ns u. chain (grants_to_users scenario_A) (grants_to_roles scenario_A)
        \<lparr>level = 1, role_name = ''READER'', granted_via_type = ''ROLE'',
         granted_via_name = ''ANALYST'', path_string = ''ANALYST -> READER''\<rparr> ns \<and>
      u \<in> set (cte_query (grants_to_users scenario_A) (grants_to_roles scenario_A) ''ALICE'') \<and>
      Suc (level u) = 1 \<and> path_string u = join_arrow (take 1 ns) \<and>
      ''ANALYST -> READER'' = path_string u @ arrow @ ''READER'' \<and>
      join_arrow (take 1 ns) \<in>
        set (map path_string
              (cte_query (grants_to_users scenario_A) (grants_to_roles scenario_A) ''ALICE''))"
proof -
  let ?r = "\<lparr>level = 1, role_name = ''READER'', granted_via_type = ''ROLE'',
             granted_via_name = ''ANALYST'', path_string = ''ANALYST -> READER''\<rparr>"
  have mem: "?r \<in> set (cte_query (grants_to_users scenario_A) (grants_to_roles scenario_A) ''ALICE'')"
    by (simp add: scenario_A_rows)
  have pos: "0 < level ?r" by simp
  from prefix_invariant [OF mem pos] show ?thesis by simp
qed

text \<open>
  C8, as stated, fails in scenario A, where no level comes near the bound: the row of
  level 1 has the path string \<^verbatim>\<open>ANALYST -> READER\<close>, and the string of its first
  1 - 1 = 0 segments, the empty string, is not in the result.
\<close>

theorem prefix_invariant_counterexample:
  "\<lparr>level = 1, role_name = ''READER'', granted_via_type = ''ROLE'',
     granted_via_name = ''ANALYST'', path_string = ''ANALYST -> READER''\<rparr>
     \<in> set (cte_query (grants_to_users scenario_A) (grants_to_roles scenario_A) ''ALICE'') \<and>
   chain (grants_to_users scenario_A) (grants_to_roles scenario_A)
     \<lparr>level = 1, role_name = ''READER'', granted_via_type = ''ROLE'',
      granted_via_name = ''ANALYST'', path_string = ''ANALYST -> READER''\<rparr>
     [''ANALYST'', ''READER''] \<and>
   list_all (\<lambda>u. level u < 20)
     (cte_query (grants_to_users scenario_A) (grants_to_roles scenario_A) ''ALICE'') \<and>
   join_arrow (take (1 - 1) [''ANALYST'', ''READER'']) \<notin> set (resolve scenario_A ''ALICE'') \<and>
   \<not> (\<exists>ns. join_arrow (take (1 - 1) ns) \<in> set (resolve scenario_A ''ALICE''))"
proof -
  have "chain (grants_to_users scenario_A) (grants_to_roles scenario_A)
     \<lparr>level = 1, role_name = ''READER'', granted_via_type = ''ROLE'',
      granted_via_name = ''ANALYST'', path_string = ''ANALYST -> READER''\<rparr>
     [''ANALYST'', ''READER'']"
    by (simp add: chain_def role_names_def scenario_A_def no_faults_def arrow_def)
  then show ?thesis by (simp add: resolve_def scenario_A_rows)
qed

section \<open>The Query Service: its responses\<close>

lemma except_clauses_status: "fst (except_clauses p e) = 404 \<or> fst (except_clauses p e) = 500"
  by (cases e) (simp_all add: except_clauses_def)

lemma inner_try_cases:
  "fst (inner_try st p u) = Return r \<Longrightarrow> r = (200, JList [JStr (no_hierarchy_message p)])"
  by (auto simp: inner_try_def jsonify_def Let_def split: option.splits if_splits)

lemma inner_try_Next:
  "fst (inner_try st p u) = Next gc \<Longrightarrow> gc = resolve st u"
  by (auto simp: inner_try_def resolve_def Let_def split: option.splits if_splits)

lemma try_block_Inr:
  assumes "fst (try_block st p u) = Inr r"
  shows "r = (200, JList [JStr (no_hierarchy_message p)]) \<or> r = (200, JList (map JStr (resolve st u)))"
  using assms inner_try_cases [of st p u] inner_try_Next [of st p u]
  by (auto simp: try_block_def jsonify_def split: option.splits prod.splits control.splits)

lemma route_status_200:
  assumes "fst (get_role_hierarchy_route st arg) = (200, body)"
  shows "\<exists>p. arg = Some p \<and> p \<noteq> [] \<and>
     (body = JList [JStr (no_hierarchy_message p)] \<or>
      body = JList (map JStr (resolve st (py_upper (py_strip p)))))"
proof (cases arg)
  case None
  with assms show ?thesis by (simp add: get_role_hierarchy_route_def)
next
  case (Some p)
  show ?thesis
  proof (cases "p = []")
    case True
    with assms Some show ?thesis by (simp add: get_role_hierarchy_route_def)
  next
    case False
    obtain x t where tb: "try_block st p (py_upper (py_strip p)) = (x, t)" by (cases "try_block st p (py_upper (py_strip p))")
    show ?thesis
    proof (cases x)
      case (Inl e)
      with assms Some False tb except_clauses_status [of p e] show ?thesis
        by (auto simp: get_role_hierarchy_route_def)
    next
      case (Inr r)
      with tb have "fst (try_block st p (py_upper (py_strip p))) = Inr r" by simp
      from try_block_Inr [OF this] assms Some False tb Inr show ?thesis
        by (auto simp: get_role_hierarchy_route_def)
    qed
  qed
qed

text \<open>
  C1. In scenario A the handler answers the request for \<^verbatim>\<open>alice\<close> with status 200 and the
  two path strings, in this order. In general the path strings of a resolution are
  sorted in the lexicographic order of their bytes, and so is the body of every
  response of status 200 that is a list.
\<close>

theorem scenario_A_sorted_paths:
  "fst (get_role_hierarchy_route scenario_A (Some ''alice'')) =
     (200, JList [JStr ''ANALYST'', JStr ''ANALYST -> READER'']) \<and>
   sorted (resolve st p) \<and>
   (fst (get_role_hierarchy_route st arg) = (200, JList js) \<longrightarrow>
      (\<exists>paths. js = map JStr paths \<and> sorted paths))"
proof (intro conjI impI)
  show "fst (get_role_hierarchy_route scenario_A (Some ''alice'')) =
     (200, JList [JStr ''ANALYST'', JStr ''ANALYST -> READER''])"
    by code_simp
  show "sorted (resolve st p)" by (rule sorted_resolve)
  assume "fst (get_role_hierarchy_route st arg) = (200, JList js)"
  from route_status_200 [OF this] obtain q where
    "js = [JStr (no_hierarchy_message q)] \<or> js = map JStr (resolve st (py_upper (py_strip q)))"
    by auto
  then show "\<exists>paths. js = map JStr paths \<and> sorted paths"
  proof
    assume "js = [JStr (no_hierarchy_message q)]"
    then have "js = map JStr [no_hierarchy_message q] \<and> sorted [no_hierarchy_message q]" by simp
    then show ?thesis by blast
  next
    assume "js = map JStr (resolve st (py_upper (py_strip q)))"
    then show ?thesis using sorted_resolve by blast
  qed
qed

theorem scenario_A_sorted_paths_witness:
  "fst (get_role_hierarchy_route scenario_A (Some ''alice'')) =
     (200, JList [JStr ''ANALYST'', JStr ''ANALYST -> READER'']) \<and>
   sorted (resolve scenario_A ''ALICE'') \<and>
   (\<exists>paths. [JStr ''ANALYST'', JStr ''ANALYST -> READER''] = map JStr paths \<and> sorted paths)"
  using scenario_A_sorted_paths [of scenario_A "''ALICE''" "Some ''alice''" "[JStr ''ANALYST'', JStr ''ANALYST -> READER'']"]
  by simp








section \<open>The Query Service: the connection and the store's errors\<close>

lemma trace_cursor_fault:
  assumes "p \<noteq> []" "connect_fault st = None" "cursor_fault st = Some e"
  shows "snd (get_role_hierarchy_route st (Some p)) = [(Connect, Returned), (Cursor, Raised e)]"
  using assms by (simp add: get_role_hierarchy_route_def try_block_def)

lemma trace_cursor_close_fault:
  assumes "p \<noteq> []" "connect_fault st = None" "cursor_fault st = None" "cursor_close_fault st = Some e"
  shows "(ConnectionClose, oc) \<notin> set (snd (get_role_hierarchy_route st (Some p)))"
  using assms
  by (auto simp: get_role_hierarchy_route_def try_block_def inner_try_def finally_block_def Let_def
      split: option.splits sum.splits control.splits prod.splits)

lemma connection_closed_after_cursor:
  assumes "p \<noteq> []" "connect_fault st = None" "cursor_fault st = None" "cursor_close_fault st = None"
  shows "\<exists>oc. last (snd (get_role_hierarchy_route st (Some p))) = (ConnectionClose, oc)"
  using assms
  by (auto simp: get_role_hierarchy_route_def try_block_def inner_try_def finally_block_def Let_def
      split: option.splits sum.splits control.splits prod.splits)

text \<open>
  C5 at its failing input: \<^verbatim>\<open>connect\<close> returns and \<^verbatim>\<open>connection.cursor()\<close>, which stands
  before the inner \<^verbatim>\<open>try\<close>, raises. The handler answers 500 and the connection is never
  closed. Once the cursor exists, the \<^verbatim>\<open>finally\<close> block runs on every path
  (\<open>connection_closed_after_cursor\<close>), unless \<^verbatim>\<open>cur.close()\<close> raises
  (\<open>trace_cursor_close_fault\<close>).
\<close>

theorem cursor_fault_leaves_connection_open:
  "get_role_hierarchy_route cursor_fails (Some ''alice'') =
     ((500, error_body
        ''An unexpected error occurred on the server while fetching role hierarchy (CTE).''
        ''Connection is closed''),
      [(Connect, Returned), (Cursor, Raised (OtherException ''Connection is closed''))])"
  by (simp add: cursor_fails_def scenario_A_def no_faults_def get_role_hierarchy_route_def
      try_block_def except_clauses_def)






section \<open>The Query Service: the parameter\<close>














section \<open>The Fetch Client: its outcomes\<close>

lemma observed_never [simp]:
  "observed (init_worker url ps) NeverStopped g =
     \<lparr>running_before_call = True, running_after_call = True, running_in_handler = True,
      get_result = g\<rparr>"
  by (simp add: observed_def flag_at_def init_worker_def)

lemma observed_stopped_before:
  "\<not> running_before_call (observed w (StoppedBeforeRead 0) g)"
  "\<not> running_after_call (observed w (StoppedBeforeRead 0) g)"
  "\<not> running_after_call (observed w (StoppedBeforeRead 1) g)"
  by (simp_all add: observed_def flag_at_def stop_def)

lemma run_cancelled_before: "\<not> running_before_call env \<Longrightarrow> run str_of env = ([], None)"
  by (simp add: run_def)

lemma except_handlers_cancelled: "fst (except_handlers str_of False e) = []"
  by (cases e) (auto simp: except_handlers_def)

lemma run_cancelled_after: "\<not> running_after_call env \<Longrightarrow> fst (run str_of env) = []"
  by (auto simp: run_def except_handlers_cancelled split: get_outcome.splits sum.splits)

lemma add_detail_dict: "\<exists>m. add_detail str_of (JDict kvs) k a b msg = Inr m"
  by (simp add: add_detail_def split: bool.splits)

lemma http_error_report_one:
  assumes "case json_result response of Inl _ \<Rightarrow> True | Inr (JDict _) \<Rightarrow> True | Inr _ \<Rightarrow> False"
  shows "\<exists>m. http_error_report str_of response = ([error_occurred m], None)"
proof (cases "json_result response")
  case (Inl f)
  then show ?thesis by (simp add: http_error_report_def)
next
  case (Inr d)
  with assms obtain kvs where d: "d = JDict kvs" by (cases d) simp_all
  obtain m1 where m1: "add_detail str_of (JDict kvs) ''error'' '' - '' []
      (''HTTP error: '' @ str_of (JNum (int (status_code response))) @ '' '' @ reason response) = Inr m1"
    using add_detail_dict by blast
  obtain m2 where m2: "add_detail str_of (JDict kvs) ''details'' '' (Details: '' '')'' m1 = Inr m2"
    using add_detail_dict by blast
  from Inr d m1 m2 show ?thesis by (simp add: http_error_report_def)
qed

lemma report_data_one: "\<exists>sg. report_data str_of data = [sg]"
  by (cases data) (simp_all add: report_data_def)

lemma run_exactly_one:
  assumes "running_before_call env" "running_after_call env" "running_in_handler env"
    and "error_body_reported (get_result env)"
  shows "\<exists>sg. run str_of env = ([sg], None)"
proof (cases "get_result env")
  case (TimedOut m)
  with assms show ?thesis by (simp add: run_def except_handlers_def)
next
  case (Failed m)
  with assms show ?thesis by (simp add: run_def except_handlers_def)
next
  case (Responded response)
  show ?thesis
  proof (cases "raises_for_status response")
    case True
    with assms(4) Responded
    have "case json_result response of Inl _ \<Rightarrow> True | Inr (JDict _) \<Rightarrow> True | Inr _ \<Rightarrow> False"
      by simp
    from http_error_report_one [OF this, of str_of] True Responded assms(1,2) show ?thesis
      by (auto simp: run_def except_handlers_def)
  next
    case False
    show ?thesis
    proof (cases "json_result response")
      case (Inl f)
      with False Responded assms(1,2,3) show ?thesis
        by (cases f) (simp_all add: run_def except_handlers_def)
    next
      case (Inr data)
      with False Responded assms(1,2) report_data_one [of str_of data] show ?thesis
        by (auto simp: run_def)
    qed
  qed
qed

lemma run_stopped_before_call:
  "run str_of (observed w (StoppedBeforeRead 0) g) = ([], None)"
  using observed_stopped_before(1) by (rule run_cancelled_before)

lemma run_stopped_during_call:
  "fst (run str_of (observed w (StoppedBeforeRead 1) g)) = []"
  using observed_stopped_before(3) by (rule run_cancelled_after)

lemma run_never_stopped:
  assumes "error_body_reported g"
  shows "\<exists>sg. run str_of (observed (init_worker url ps) NeverStopped g) = ([sg], None)"
  by (rule run_exactly_one) (simp_all add: assms)

text \<open>
  C3 at its failing input. The flag is never cleared and the server answers with status
  500 and the JSON body \<^verbatim>\<open>5\<close>: the test \<^verbatim>\<open>"error" in err_details\<close> of line 190 raises
  \<^verbatim>\<open>TypeError\<close>, which the \<^verbatim>\<open>except ValueError\<close> of line 192 does not take, and the run ends
  with no signal emitted. Line 179 tests \<^verbatim>\<open>isinstance(data, dict)\<close> first; line 190
  does not. The rest of the claim holds: a run stopped before the call or during it
  emits nothing (\<open>run_stopped_before_call\<close>, \<open>run_stopped_during_call\<close>), and a run
  never stopped emits exactly one signal when the body of an error response is not JSON
  or is an object (\<open>run_never_stopped\<close>).
\<close>

theorem http_error_scalar_body_no_outcome:
  "run str_of http_500_scalar = ([], Some TypeError)"
  by (simp add: run_def http_500_scalar_def role_hierarchy_worker_def raises_for_status_def
      except_handlers_def http_error_report_def add_detail_def)

text \<open>
  C9, as amended. When the flag is set at its two reads, the status raises nothing and
  the body is parsed: a list is emitted by \<^verbatim>\<open>data_ready\<close>; an object with the key
  \<^verbatim>\<open>error\<close> is reported as a backend error with its \<^verbatim>\<open>error\<close> and \<^verbatim>\<open>details\<close> values;
  every other value is reported as an unexpected data format. One signal is emitted in
  each case, and no exception leaves the run.
\<close>

theorem parsed_body_outcome:
  assumes "running_before_call env" "running_after_call env"
    and "get_result env = Responded response" "\<not> raises_for_status response"
    and "json_result response = Inr data"
  shows "snd (run str_of env) = None \<and>
    (\<forall>xs. data = JList xs \<longrightarrow> fst (run str_of env) = [data_ready xs]) \<and>
    (\<forall>kvs. data = JDict kvs \<and> dict_has kvs ''error'' \<longrightarrow>
       fst (run str_of env) =
         [error_occurred (''Backend error: '' @ str_of (dict_get kvs ''error'' JNull) @
            '' (Details: '' @ str_of (dict_get kvs ''details'' (JStr ''N/A'')) @ '')'')]) \<and>
    ((\<forall>xs. data \<noteq> JList xs) \<and> (\<forall>kvs. data = JDict kvs \<longrightarrow> \<not> dict_has kvs ''error'') \<longrightarrow>
       fst (run str_of env) = [error_occurred unexpected_format_message])"
proof -
  from assms have r: "run str_of env = (report_data str_of data, None)"
    by (simp add: run_def)
  show ?thesis unfolding r
    by (cases data) (simp_all add: report_data_def)
qed

theorem parsed_body_outcome_witness:
  "fst (run str_of_text (ok_response (JList [JStr ''ANALYST'']))) = [data_ready [JStr ''ANALYST'']] \<and>
   snd (run str_of_text (ok_response (JList [JStr ''ANALYST'']))) = None \<and>
   fst (run str_of_text (ok_response (JDict [(''error'', JStr ''x'')]))) =
     [error_occurred ''Backend error: x (Details: N/A)''] \<and>
   fst (run str_of_text (ok_response (JStr ''ANALYST''))) = [error_occurred unexpected_format_message]"
proof -
  have h: "running_before_call (ok_response d)" "running_after_call (ok_response d)"
    "get_result (ok_response d) = Responded \<lparr>status_code = 200, reason = ''OK'', json_result = Inr d\<rparr>"
    "\<not> raises_for_status \<lparr>status_code = 200, reason = ''OK'', json_result = Inr d\<rparr>"
    "json_result \<lparr>status_code = 200, reason = ''OK'', json_result = Inr d\<rparr> = Inr d" for d
    by (simp_all add: ok_response_def role_hierarchy_worker_def raises_for_status_def)
  have k: "dict_has [(''error'', JStr ''x'')] ''error''" by (simp add: dict_has_def)
  from parsed_body_outcome [where str_of = str_of_text, OF h [of "JList [JStr ''ANALYST'']"]]
    parsed_body_outcome [where str_of = str_of_text, OF h [of "JDict [(''error'', JStr ''x'')]"]]
    parsed_body_outcome [where str_of = str_of_text, OF h [of "JStr ''ANALYST''"]] k
  show ?thesis by (simp add: dict_get_def str_of_text_def)
qed

text \<open>
  C9, as stated, fails: an object with the key \<^verbatim>\<open>error\<close> is not a list, and the message
  emitted for it is not the one of an unexpected format.
\<close>

theorem error_object_counterexample:
  "run str_of_text (ok_response (JDict [(''error'', JStr ''x'')])) =
     ([error_occurred ''Backend error: x (Details: N/A)''], None) \<and>
   ''Backend error: x (Details: N/A)'' \<noteq> unexpected_format_message"
  by (simp add: run_def ok_response_def role_hierarchy_worker_def raises_for_status_def
      report_data_def dict_has_def dict_get_def str_of_text_def unexpected_format_message_def)


end
